theory Spec2Isabelle
  imports
    Main
    "HOL-Library.Char_ord"
    "HOL-Library.List_Lexorder"
    "HOL-Library.Multiset"
begin

section \<open>Label selector (\<^verbatim>\<open>getLabelSelector\<close>)\<close>

text \<open>
  \<^verbatim>\<open>strings.Join(elems, sep)\<close> of the Go standard library: the elements in order,
  with \<open>sep\<close> between neighbours and nothing around them.
\<close>

fun Join :: "string list \<Rightarrow> string \<Rightarrow> string" where
  "Join [] sep = []"
| "Join [x] sep = x"
| "Join (x # y # ys) sep = x @ sep @ Join (y # ys) sep"

text \<open>
  The two reserved label keys \<^verbatim>\<open>outputv1.TargetTechnologyLabel\<close> and
  \<^verbatim>\<open>outputv1.SourceTechnologyLabel\<close> are constants of the analyzer library, which is
  not part of the repository: \<open>getLabelSelector\<close> takes them as the parameters
  \<open>targetLabel\<close> and \<open>sourceLabel\<close>. The loops that build \<^verbatim>\<open>targets\<close> and
  \<^verbatim>\<open>sources\<close> by \<^verbatim>\<open>fmt.Sprintf("%s=%s", label, value)\<close> are maps; a nil slice
  and an empty slice are both the empty list.
\<close>

definition defaultLabels :: "string list" where
  "defaultLabels = [''discovery'']"

definition getLabelSelector :: "string \<Rightarrow> string \<Rightarrow> string list \<Rightarrow> string list \<Rightarrow> string" where
  "getLabelSelector targetLabel sourceLabel targetsFlag sourcesFlag =
     (if sourcesFlag = [] \<and> targetsFlag = [] then []
      else
        let targets = map (\<lambda>target. targetLabel @ ''='' @ target) targetsFlag;
            sources = map (\<lambda>source. sourceLabel @ ''='' @ source) sourcesFlag;
            targetExpr = (if length targets > 0 then ''('' @ Join targets '' || '' @ '')'' else []);
            sourceExpr = (if length sources > 0 then ''('' @ Join sources '' || '' @ '')'' else [])
        in
          if targetExpr \<noteq> [] then
            (if sourceExpr \<noteq> [] then
               ''('' @ targetExpr @ '' && '' @ sourceExpr @ '') || ('' @ Join defaultLabels '' || '' @ '')''
             else
               ''('' @ targetExpr @ '' && '' @ sourceLabel @ '') || ('' @ Join defaultLabels '' || '' @ '')'')
          else if sourceExpr \<noteq> [] then
            sourceExpr @ '' || ('' @ Join defaultLabels '' || '' @ '')''
          else [])"

section \<open>Copying a rules file (\<^verbatim>\<open>copyFileContents\<close>)\<close>

text \<open>
  Go errors are values; \<open>None\<close> is the nil error. The file system is a map from paths
  to the bytes of the files that exist, with the operating system's refusals as data:
  paths it refuses to open for reading, paths it refuses to create, and for a path the
  number of bytes after which a write to it fails. An open file is named by its path,
  so that reading through a handle sees the file as it is at that moment.
\<close>

type_synonym error = string

record filesys =
  contents :: "string \<rightharpoonup> string"
  deniedRead :: "string \<Rightarrow> bool"
  deniedCreate :: "string \<Rightarrow> bool"
  writeFault :: "string \<rightharpoonup> nat"

definition os_Open :: "filesys \<Rightarrow> string \<Rightarrow> error + string" where
  "os_Open fs name =
     (case contents fs name of
        None \<Rightarrow> Inl ''no such file or directory''
      | Some bytes \<Rightarrow> if deniedRead fs name then Inl ''permission denied'' else Inr name)"

definition os_Create :: "filesys \<Rightarrow> string \<Rightarrow> error + (string \<times> filesys)" where
  "os_Create fs name =
     (if deniedCreate fs name then Inl ''permission denied''
      else Inr (name, fs\<lparr>contents := (contents fs)(name \<mapsto> [])\<rparr>))"

definition io_Copy :: "filesys \<Rightarrow> string \<Rightarrow> string \<Rightarrow> error option \<times> filesys" where
  "io_Copy fs dst src =
     (let bytes = (case contents fs src of None \<Rightarrow> [] | Some b \<Rightarrow> b) in
      case writeFault fs dst of
        None \<Rightarrow> (None, fs\<lparr>contents := (contents fs)(dst \<mapsto> bytes)\<rparr>)
      | Some n \<Rightarrow>
          if n < length bytes
          then (Some ''write failed'', fs\<lparr>contents := (contents fs)(dst \<mapsto> take n bytes)\<rparr>)
          else (None, fs\<lparr>contents := (contents fs)(dst \<mapsto> bytes)\<rparr>))"

text \<open>
  \<open>copyFileContents\<close> returns the error and the file system it leaves. The deferred
  \<^verbatim>\<open>Close\<close> calls do not change the files.
\<close>

definition copyFileContents :: "filesys \<Rightarrow> string \<Rightarrow> string \<Rightarrow> error option \<times> filesys" where
  "copyFileContents fs src dst =
     (case os_Open fs src of
        Inl err \<Rightarrow> (None, fs)
      | Inr source \<Rightarrow>
          (case os_Create fs dst of
             Inl err \<Rightarrow> (Some err, fs)
           | Inr (destination, fs1) \<Rightarrow>
               (case io_Copy fs1 destination source of
                  (Some err, fs2) \<Rightarrow> (Some err, fs2)
                | (None, fs2) \<Rightarrow> (None, fs2))))"

section \<open>Merging provider configurations (\<^verbatim>\<open>setConfigsContainerless\<close>)\<close>

text \<open>
  The structs \<^verbatim>\<open>provider.Config\<close> and \<^verbatim>\<open>provider.InitConfig\<close> belong to the
  analyzer library; the records hold the fields the repository reads or writes. The
  provider-specific configuration is a Go map that the merge only copies, so its type
  is a parameter, and \<open>None\<close> is the nil map.
\<close>

record 'c InitConfig =
  Location :: string
  AnalysisMode :: string
  ProviderSpecificConfig :: "'c option"

record Proxy =
  HTTPProxy :: string
  HTTPSProxy :: string
  NoProxy :: string

record 'c Config =
  Name :: string
  BinaryPath :: string
  InitConfig :: "'c InitConfig list"
  Proxy :: "Proxy option"
  ContextLines :: int

text \<open>
  What the merge asks the operating system: whether \<^verbatim>\<open>os.Stat\<close> succeeds on a path
  and reports a directory, and what \<^verbatim>\<open>filepath.Abs\<close> returns for it.
\<close>

record os_paths =
  statIsDir :: "string \<Rightarrow> bool"
  filepathAbs :: "string \<Rightarrow> error + string"

definition builtinLocationOf :: "os_paths \<Rightarrow> string \<Rightarrow> string" where
  "builtinLocationOf os loc = (case filepathAbs os loc of Inl err \<Rightarrow> loc | Inr p \<Rightarrow> p)"

text \<open>
  The inner loop over one config's init configs. Its state is
  \<^verbatim>\<open>defaultBuiltinConfigs\<close> and the map \<^verbatim>\<open>seenBuiltinConfigs\<close>. The map is read at
  the location as the init config spells it and written at \<^verbatim>\<open>builtinLocation\<close>.
\<close>

fun initConfLoop ::
  "os_paths \<Rightarrow> string \<Rightarrow> 'c InitConfig list
     \<Rightarrow> 'c InitConfig list \<times> (string \<rightharpoonup> bool) \<Rightarrow> 'c InitConfig list \<times> (string \<rightharpoonup> bool)" where
  "initConfLoop os name [] st = st"
| "initConfLoop os name (initConf # rest) (defaultBuiltinConfigs, seenBuiltinConfigs) =
     initConfLoop os name rest
       (if seenBuiltinConfigs (Location initConf) = None
           \<and> Location initConf \<noteq> []
           \<and> statIsDir os (Location initConf)
        then
          let builtinLocation = builtinLocationOf os (Location initConf);
              builtinConf = \<lparr>Location = builtinLocation, AnalysisMode = [],
                 ProviderSpecificConfig =
                   (if name = ''builtin'' then ProviderSpecificConfig initConf else None)\<rparr>
          in (defaultBuiltinConfigs @ [builtinConf], seenBuiltinConfigs(builtinLocation \<mapsto> True))
        else (defaultBuiltinConfigs, seenBuiltinConfigs))"

fun configLoop ::
  "os_paths \<Rightarrow> 'c Config list
     \<Rightarrow> 'c Config list \<times> 'c InitConfig list \<times> (string \<rightharpoonup> bool)
     \<Rightarrow> 'c Config list \<times> 'c InitConfig list \<times> (string \<rightharpoonup> bool)" where
  "configLoop os [] st = st"
| "configLoop os (config # rest) (finalConfigs, builtinState) =
     configLoop os rest
       (if Name config \<noteq> ''builtin'' then finalConfigs @ [config] else finalConfigs,
        initConfLoop os (Name config) (InitConfig config) builtinState)"

definition setConfigsContainerless :: "os_paths \<Rightarrow> 'c Config list \<Rightarrow> 'c Config list" where
  "setConfigsContainerless os configs =
     (case configLoop os configs ([], [], Map.empty) of
        (finalConfigs, defaultBuiltinConfigs, seenBuiltinConfigs) \<Rightarrow>
          finalConfigs @
            [\<lparr>Name = ''builtin'', BinaryPath = [], InitConfig = defaultBuiltinConfigs,
              Proxy = None, ContextLines = 0\<rparr>])"

text \<open>The merged fallback config is the last config of the result.\<close>

definition mergedBuiltin :: "os_paths \<Rightarrow> 'c Config list \<Rightarrow> 'c InitConfig list" where
  "mergedBuiltin os configs = InitConfig (last (setConfigsContainerless os configs))"

subsection \<open>Concrete inputs for the merge and the copy\<close>

text \<open>
  A machine whose working directory is \<open>/work\<close>, holding the directories \<open>app\<close>
  and \<open>lib\<close>: \<open>app\<close>, \<open>./app\<close> and \<open>/work/app\<close> spell the same directory.
\<close>

definition workdir_os :: os_paths where
  "workdir_os =
     \<lparr>statIsDir = (\<lambda>p. p = ''app'' \<or> p = ''./app'' \<or> p = ''/work/app'' \<or> p = ''/work/lib''),
      filepathAbs = (\<lambda>p. if p = ''app'' \<or> p = ''./app'' then Inr ''/work/app''
                         else if p = [] then Inr ''/work'' else Inr p)\<rparr>"

text \<open>A provider config with the given name and (location, provider-specific config) pairs.\<close>

definition cfg :: "string \<Rightarrow> (string \<times> 'c option) list \<Rightarrow> 'c Config" where
  "cfg name locs =
     \<lparr>Name = name, BinaryPath = [],
      InitConfig = map (\<lambda>(loc, psc). \<lparr>Location = loc, AnalysisMode = ''full'',
                                       ProviderSpecificConfig = psc\<rparr>) locs,
      Proxy = None, ContextLines = 0\<rparr>"

text \<open>A file system with no file and no refusal.\<close>

definition emptyfs :: filesys where
  "emptyfs = \<lparr>contents = Map.empty, deniedRead = (\<lambda>p. False), deniedCreate = (\<lambda>p. False),
     writeFault = Map.empty\<rparr>"

section \<open>Providers and process outcomes\<close>

text \<open>
  A provider client answers \<^verbatim>\<open>ProviderInit(ctx, configs)\<close> with additional init
  configs for the fallback provider and an error, and \<^verbatim>\<open>GetDependencies(ctx)\<close> with
  a map from file URI to dependency list and an error. Go returns both values of the
  pair in every case, and the code reads both, so both are kept. A Go map is a list of
  (key, value) pairs in the order in which \<^verbatim>\<open>range\<close> visits them on that run.
\<close>

record ('c, 'd) InternalProviderClient =
  ProviderInit :: "'c InitConfig list \<Rightarrow> 'c InitConfig list \<times> error option"
  GetDependencies :: "(string \<times> 'd list) list \<times> error option"

text \<open>
  A function either returns to its caller or ends the process with
  \<^verbatim>\<open>os.Exit(code)\<close>.
\<close>

datatype 'a outcome = Exit int | Return 'a

section \<open>Starting the providers (\<^verbatim>\<open>startProvidersContainerless\<close>)\<close>

text \<open>
  The loop over \<^verbatim>\<open>needProviders\<close>: the fallback provider is passed over, every other
  provider is initialised with the nil config list, and its additional configs are
  appended to \<^verbatim>\<open>additionalBuiltinConfigs\<close>.
\<close>

fun initLoop ::
  "(string \<times> ('c, 'd) InternalProviderClient) list \<Rightarrow> 'c InitConfig list
     \<Rightarrow> 'c InitConfig list outcome" where
  "initLoop [] additionalBuiltinConfigs = Return additionalBuiltinConfigs"
| "initLoop ((name, provider) # rest) additionalBuiltinConfigs =
     (if name = ''builtin'' then initLoop rest additionalBuiltinConfigs
      else
        (case ProviderInit provider [] of
           (additionalBuiltinConfs, Some err) \<Rightarrow> Exit 1
         | (additionalBuiltinConfs, None) \<Rightarrow>
             initLoop rest (additionalBuiltinConfigs @ additionalBuiltinConfs)))"

definition startProvidersContainerless ::
  "(string \<times> ('c, 'd) InternalProviderClient) list \<Rightarrow> error option outcome" where
  "startProvidersContainerless needProviders =
     (case initLoop needProviders [] of
        Exit code \<Rightarrow> Exit code
      | Return additionalBuiltinConfigs \<Rightarrow>
          (case map_of needProviders ''builtin'' of
             None \<Rightarrow> Return None
           | Some builtinClient \<Rightarrow>
               (case ProviderInit builtinClient additionalBuiltinConfigs of
                  (confs, Some err) \<Rightarrow> Return (Some err)
                | (confs, None) \<Rightarrow> Return None)))"

text \<open>
  The additional configs that reach the fallback provider when every other provider
  starts: those of the non-fallback providers, in the order of the loop.
\<close>

definition collectedConfigs ::
  "(string \<times> ('c, 'd) InternalProviderClient) list \<Rightarrow> 'c InitConfig list" where
  "collectedConfigs needProviders =
     concat (map (\<lambda>(name, provider). fst (ProviderInit provider []))
               (filter (\<lambda>(name, provider). name \<noteq> ''builtin'') needProviders))"

section \<open>Stable sorting (\<^verbatim>\<open>sort.SliceStable\<close>)\<close>

text \<open>
  \<^verbatim>\<open>sort.SliceStable(xs, less)\<close> sorts by \<open>less\<close> and keeps elements that \<open>less\<close>
  does not separate in their original order. The model is insertion sort from the
  right, which is stable; an element is put before the first element that is not
  smaller than it.
\<close>

fun insertStable :: "('a \<Rightarrow> 'a \<Rightarrow> bool) \<Rightarrow> 'a \<Rightarrow> 'a list \<Rightarrow> 'a list" where
  "insertStable lessFn x [] = [x]"
| "insertStable lessFn x (y # ys) =
     (if lessFn y x then y # insertStable lessFn x ys else x # y # ys)"

definition SliceStable :: "('a \<Rightarrow> 'a \<Rightarrow> bool) \<Rightarrow> 'a list \<Rightarrow> 'a list" where
  "SliceStable lessFn xs = foldr (insertStable lessFn) xs []"

section \<open>Collecting dependencies (\<^verbatim>\<open>DependencyOutputContainerless\<close>)\<close>

record 'd DepsFlatItem =
  Provider :: string
  FileURI :: string
  Dependencies :: "'d list"

text \<open>The result of the rule engine for one ruleset; the violations are not inspected.\<close>

record 'v RuleSet =
  RuleSetName :: string
  Violations :: "'v list"

text \<open>
  The two artifacts of the output directory, by the value that is marshalled into
  them. The output directory is a map from file name to document; log files,
  \<^verbatim>\<open>settings.json\<close>, \<^verbatim>\<open>output.json\<close> and the static report are not part of it.
\<close>

datatype ('d, 'v) document =
  DepsYaml "'d DepsFlatItem list"
| RuleSetsYaml "'v RuleSet list"

text \<open>
  The loop over the providers. \<^verbatim>\<open>depsFlat\<close> is nil exactly when nothing was appended
  to it, and \<^verbatim>\<open>depsTree\<close> is nil throughout, so the test at the end of the loop body is
  \<open>depsFlat = []\<close>; \<open>None\<close> is the \<^verbatim>\<open>return\<close> it guards. The provider named in every
  item is the literal \<^verbatim>\<open>"java"\<close>. An error of \<^verbatim>\<open>GetDependencies\<close> is logged and the
  loop body goes on with the map that came with it.
\<close>

fun providerLoop ::
  "(string \<times> ('c, 'd) InternalProviderClient) list \<Rightarrow> 'd DepsFlatItem list
     \<Rightarrow> 'd DepsFlatItem list option" where
  "providerLoop [] depsFlat = Some depsFlat"
| "providerLoop ((name, prov) # rest) depsFlat =
     (case GetDependencies prov of
        (deps, err) \<Rightarrow>
          let depsFlat' = depsFlat @
                map (\<lambda>(u, ds). \<lparr>Provider = ''java'', FileURI = u, Dependencies = ds\<rparr>) deps
          in if depsFlat' = [] then None else providerLoop rest depsFlat')"

definition depsLess :: "'d DepsFlatItem \<Rightarrow> 'd DepsFlatItem \<Rightarrow> bool" where
  "depsLess i j =
     (if Provider i = Provider j then FileURI i < FileURI j else Provider i < Provider j)"

text \<open>
  Whether \<^verbatim>\<open>yaml.Marshal\<close> and \<^verbatim>\<open>os.WriteFile\<close> fail is given from outside. The
  function returns the output directory it leaves.
\<close>

record write_faults =
  marshalErr :: "error option"
  writeErr :: "error option"

definition DependencyOutputContainerless ::
  "write_faults \<Rightarrow> (string \<times> ('c, 'd) InternalProviderClient) list \<Rightarrow> string
     \<Rightarrow> (string \<rightharpoonup> ('d, 'v) document) \<Rightarrow> (string \<rightharpoonup> ('d, 'v) document)" where
  "DependencyOutputContainerless io providers depOutputFile files =
     (case providerLoop providers [] of
        None \<Rightarrow> files
      | Some depsFlat \<Rightarrow>
          let sortedFlat = SliceStable depsLess depsFlat in
          (case marshalErr io of
             Some err \<Rightarrow> files
           | None \<Rightarrow>
               (case writeErr io of
                  Some err \<Rightarrow> files
                | None \<Rightarrow> files(depOutputFile \<mapsto> DepsYaml sortedFlat))))"

section \<open>The analysis run (\<^verbatim>\<open>RunAnalysisContainerless\<close>)\<close>

text \<open>
  The two analysis modes. The constants belong to the analyzer library; their values
  are the ones the \<^verbatim>\<open>--mode\<close> flag documents and \<^verbatim>\<open>Validate\<close> reports
  (\<^verbatim>\<open>mode must be one of 'full' or 'source-only'\<close>).
\<close>

definition FullAnalysisMode :: string where
  "FullAnalysisMode = ''full''"

definition SourceOnlyAnalysisMode :: string where
  "SourceOnlyAnalysisMode = ''source-only''"

text \<open>The flags of the command that the run reads in this model.\<close>

record analyzeCommand =
  sources :: "string list"
  targets :: "string list"
  mode :: string

text \<open>
  What the run receives from outside itself: the label keys, the error of each step
  it delegates (validation, creating the log file, parsing the selector, locating the
  binaries, writing the provider settings, creating the fallback client, marshalling
  and writing the rule results, the JSON output, the static report), the provider
  clients, and the rule engine's answer for a list of selectors. The providers that
  \<^verbatim>\<open>setInternalProviders\<close> builds and the ones the rule parser asks for are Go maps,
  given in the order of their loops.
\<close>

record ('c, 'd, 'v) world =
  TargetTechnologyLabel :: string
  SourceTechnologyLabel :: string
  validateErr :: "error option"
  createLogErr :: "error option"
  newLabelSelectorErr :: "string \<Rightarrow> error option"
  setBinMapErr :: "error option"
  providerConfigsErr :: "error option"
  builtinClientErr :: "error option"
  providers :: "(string \<times> ('c, 'd) InternalProviderClient) list"
  needProviders :: "(string \<times> ('c, 'd) InternalProviderClient) list"
  RunRules :: "string list \<Rightarrow> 'v RuleSet list"
  rulesFaults :: write_faults
  depsFaults :: write_faults
  jsonOutputErr :: "error option"
  staticReport :: "error option outcome"

text \<open>
  What the run leaves: the output directory, whether the dependency task was started,
  and whether the rule engine was asked to evaluate.
\<close>

record ('d, 'v) run_state =
  files :: "string \<rightharpoonup> ('d, 'v) document"
  depTaskStarted :: bool
  rulesEvaluated :: bool

definition rulesetLess :: "'v RuleSet \<Rightarrow> 'v RuleSet \<Rightarrow> bool" where
  "rulesetLess i j = (RuleSetName i < RuleSetName j)"

text \<open>
  The run, step by step in the order of the source. The dependency task runs beside
  the rule engine and is joined before the results are sorted; the two write different
  files and share no variable, so the task's effect is applied where it is started.
\<close>

definition RunAnalysisContainerless ::
  "analyzeCommand \<Rightarrow> ('c, 'd, 'v) world \<Rightarrow> (string \<rightharpoonup> ('d, 'v) document)
     \<Rightarrow> error option outcome \<times> ('d, 'v) run_state" where
  "RunAnalysisContainerless a w files0 =
     (let st0 = \<lparr>files = files0, depTaskStarted = False, rulesEvaluated = False\<rparr> in
      if validateErr w \<noteq> None then (Return (validateErr w), st0) else
      if createLogErr w \<noteq> None
        then (Return (Some ''failed creating provider log file''), st0) else
      let labelSelectors =
            getLabelSelector (TargetTechnologyLabel w) (SourceTechnologyLabel w) (targets a) (sources a)
      in
      if labelSelectors \<noteq> [] \<and> newLabelSelectorErr w labelSelectors \<noteq> None
        then (Exit 1, st0) else
      let selectors = (if labelSelectors \<noteq> [] then [labelSelectors] else []) in
      if setBinMapErr w \<noteq> None then (Exit 1, st0) else
      if providerConfigsErr w \<noteq> None then (Exit 1, st0) else
      if builtinClientErr w \<noteq> None then (Exit 1, st0) else
      (case startProvidersContainerless (needProviders w) of
         Exit code \<Rightarrow> (Exit code, st0)
       | Return (Some err) \<Rightarrow> (Exit 1, st0)
       | Return None \<Rightarrow>
          (let st1 = (if mode a = FullAnalysisMode
                      then st0\<lparr>depTaskStarted := True,
                               files := DependencyOutputContainerless (depsFaults w) (providers w)
                                          ''dependencies.yaml'' (files st0)\<rparr>
                      else st0);
               rulesets = RunRules w selectors;
               st2 = st1\<lparr>rulesEvaluated := True\<rparr>;
               sortedRulesets = SliceStable rulesetLess rulesets
           in
           if marshalErr (rulesFaults w) \<noteq> None
             then (Return (marshalErr (rulesFaults w)), st2) else
           if writeErr (rulesFaults w) \<noteq> None then (Exit 1, st2) else
           let st3 = st2\<lparr>files :=
                         (files st2)(''output.yaml'' \<mapsto> RuleSetsYaml sortedRulesets)\<rparr> in
           if jsonOutputErr w \<noteq> None then (Return (jsonOutputErr w), st3) else
           (case staticReport w of
              Exit code \<Rightarrow> (Exit code, st3)
            | Return (Some err) \<Rightarrow> (Return (Some err), st3)
            | Return None \<Rightarrow> (Return None, st3)))))"

text \<open>
  The selector list that the run passes to the rule engine: the label selector when it
  is not empty, and nothing otherwise.
\<close>

definition ruleSelectors :: "analyzeCommand \<Rightarrow> ('c, 'd, 'v) world \<Rightarrow> string list" where
  "ruleSelectors a w =
     (let labelSelectors =
            getLabelSelector (TargetTechnologyLabel w) (SourceTechnologyLabel w) (targets a) (sources a)
      in if labelSelectors \<noteq> [] then [labelSelectors] else [])"

text \<open>
  The run reaches the start of the providers when every step before it succeeds:
  validation, the log file, the parsing of the selector, the binaries, the provider
  settings and the fallback client.
\<close>

definition reachesProviderStart :: "analyzeCommand \<Rightarrow> ('c, 'd, 'v) world \<Rightarrow> bool" where
  "reachesProviderStart a w =
     (validateErr w = None \<and> createLogErr w = None
      \<and> (list_all (\<lambda>expr. newLabelSelectorErr w expr = None) (ruleSelectors a w))
      \<and> setBinMapErr w = None \<and> providerConfigsErr w = None \<and> builtinClientErr w = None)"

subsection \<open>Concrete providers and a concrete world\<close>

text \<open>
  A client that starts and reports the given dependencies, one that starts and fails to
  report dependencies, and one whose initialisation fails.
\<close>

definition clientWith :: "(string \<times> 'd list) list \<Rightarrow> ('c, 'd) InternalProviderClient" where
  "clientWith deps = \<lparr>ProviderInit = (\<lambda>confs. ([], None)), GetDependencies = (deps, None)\<rparr>"

definition clientNoDeps :: "('c, 'd) InternalProviderClient" where
  "clientNoDeps =
     \<lparr>ProviderInit = (\<lambda>confs. ([], None)),
      GetDependencies = ([], Some ''failed to get dependencies'')\<rparr>"

definition clientInitFails :: "('c, 'd) InternalProviderClient" where
  "clientInitFails =
     \<lparr>ProviderInit = (\<lambda>confs. ([], Some ''failed to init'')), GetDependencies = ([], None)\<rparr>"

definition noFaults :: write_faults where
  "noFaults = \<lparr>marshalErr = None, writeErr = None\<rparr>"

text \<open>
  A world in which every delegated step succeeds, with the given providers and the
  given answer of the rule engine.
\<close>

definition calmWorld ::
  "(string \<times> ('c, 'd) InternalProviderClient) list \<Rightarrow> 'v RuleSet list \<Rightarrow> ('c, 'd, 'v) world" where
  "calmWorld provs rulesets =
     \<lparr>TargetTechnologyLabel = ''konveyor.io/target'',
      SourceTechnologyLabel = ''konveyor.io/source'',
      validateErr = None, createLogErr = None, newLabelSelectorErr = (\<lambda>expr. None),
      setBinMapErr = None, providerConfigsErr = None, builtinClientErr = None,
      providers = provs, needProviders = provs, RunRules = (\<lambda>selectors. rulesets),
      rulesFaults = noFaults, depsFaults = noFaults, jsonOutputErr = None,
      staticReport = Return None\<rparr>"

text \<open>A command with one target, two rulesets, and the dependencies of one build file.\<close>

definition demoCommand :: "string \<Rightarrow> analyzeCommand" where
  "demoCommand m = \<lparr>sources = [], targets = [''cloud-readiness''], mode = m\<rparr>"

definition rsAlpha :: "string RuleSet" where
  "rsAlpha = \<lparr>RuleSetName = ''alpha'', Violations = [''a-1'']\<rparr>"

definition rsZeta :: "string RuleSet" where
  "rsZeta = \<lparr>RuleSetName = ''zeta'', Violations = [''z-1'']\<rparr>"

definition rsAlpha2 :: "string RuleSet" where
  "rsAlpha2 = \<lparr>RuleSetName = ''alpha'', Violations = [''a-2'']\<rparr>"

definition pomDeps :: "(string \<times> string list) list" where
  "pomDeps = [(''file:///work/app/pom.xml'', [''junit'', ''log4j''])]"

text \<open>An output directory that an earlier run left with a dependency artifact.\<close>

definition staleOutput :: "string \<rightharpoonup> (string, string) document" where
  "staleOutput =
     [''dependencies.yaml'' \<mapsto>
        DepsYaml [\<lparr>Provider = ''java'', FileURI = ''file:///work/old/pom.xml'',
                   Dependencies = [''commons-io'']\<rparr>]]"

section \<open>Properties of the label selector\<close>

text \<open>
  C7. With no target and no source the selector is the empty string: no filter at all.
  The empty string comes out in that case only, so it is never confused with a selector
  that filters, the bare default filter \<open>(discovery)\<close> included.
\<close>

theorem getLabelSelector_empty:
  "getLabelSelector targetLabel sourceLabel [] [] = []
   \<and> getLabelSelector targetLabel sourceLabel [] [] \<noteq> ''(discovery)''
   \<and> ((getLabelSelector targetLabel sourceLabel ts ss = []) = (ts = [] \<and> ss = []))"
  by (auto simp: getLabelSelector_def Let_def)

text \<open>
  C3, as stated, fails. For the single target \<open>cloud-readiness\<close> and no source, and
  with the label keys read as \<open>target\<close> and \<open>source\<close>, the selector is not
  \<open>(target=cloud-readiness && source) || (discovery)\<close>: the code wraps the target
  group in parentheses of its own before it joins it with the source term.
\<close>

theorem getLabelSelector_target_only_counterexample:
  "getLabelSelector ''target'' ''source'' [''cloud-readiness''] []
     \<noteq> ''(target=cloud-readiness && source) || (discovery)''"
  by (simp add: getLabelSelector_def defaultLabels_def)

text \<open>
  C3, amended. For one target \<open>t\<close> and no source the selector is
  \<open>((T=t) && S) || (discovery)\<close>, where \<open>T\<close> and \<open>S\<close> are the target and source
  label keys: the target group keeps its parentheses and the source key stands bare,
  as an existence test. With the keys \<open>target\<close> and \<open>source\<close> and the target
  \<open>cloud-readiness\<close> this is \<open>((target=cloud-readiness) && source) || (discovery)\<close>.
\<close>

theorem getLabelSelector_target_only:
  "getLabelSelector targetLabel sourceLabel [t] []
     = ''(('' @ targetLabel @ ''='' @ t @ '') && '' @ sourceLabel @ '') || (discovery)''
   \<and> getLabelSelector ''target'' ''source'' [''cloud-readiness''] []
     = ''((target=cloud-readiness) && source) || (discovery)''"
  by (simp add: getLabelSelector_def defaultLabels_def)

section \<open>Properties of \<open>copyFileContents\<close>\<close>

text \<open>
  C10. When the source file cannot be opened, \<open>copyFileContents\<close> returns the nil
  error and leaves the file system as it was: the destination is not created, and the
  caller is not told of the failure.
\<close>

theorem copyFileContents_open_failure_swallowed:
  assumes "os_Open fs src = Inl err"
  shows "copyFileContents fs src dst = (None, fs)"
  using assms by (simp add: copyFileContents_def)

theorem copyFileContents_open_failure_swallowed_witness:
  "os_Open emptyfs ''custom.yaml'' = Inl ''no such file or directory''
   \<and> copyFileContents emptyfs ''custom.yaml'' ''/tmp/rules0.yaml'' = (None, emptyfs)
   \<and> contents (snd (copyFileContents emptyfs ''custom.yaml'' ''/tmp/rules0.yaml''))
         ''/tmp/rules0.yaml'' = None"
proof -
  have h: "os_Open emptyfs ''custom.yaml'' = Inl ''no such file or directory''"
    by (simp add: os_Open_def emptyfs_def)
  from copyFileContents_open_failure_swallowed [OF h, of "''/tmp/rules0.yaml''"] h
  show ?thesis
    by (simp add: emptyfs_def)
qed

section \<open>Properties of the configuration merge\<close>

subsection \<open>The loops only append, and every entry has an origin\<close>

lemma initConfLoop_append:
  "initConfLoop os name (xs @ ys) st = initConfLoop os name ys (initConfLoop os name xs st)"
  by (induction os name xs st rule: initConfLoop.induct) auto

lemma initConfLoop_prefix:
  "\<exists>ys. fst (initConfLoop os name ics st) = fst st @ ys"
  by (induction os name ics st rule: initConfLoop.induct) (auto simp: Let_def)

lemma initConfLoop_seen_dom:
  "dom (snd (initConfLoop os name ics st))
     \<subseteq> dom (snd st) \<union> (\<lambda>ic. builtinLocationOf os (Location ic)) ` set ics"
  by (induction os name ics st rule: initConfLoop.induct) (auto simp: Let_def split: if_splits)

lemma initConfLoop_origin:
  "e \<in> set (fst (initConfLoop os name ics st)) \<Longrightarrow>
     e \<in> set (fst st) \<or>
     (\<exists>ic \<in> set ics. e = \<lparr>Location = builtinLocationOf os (Location ic), AnalysisMode = [],
          ProviderSpecificConfig = (if name = ''builtin'' then ProviderSpecificConfig ic else None)\<rparr>)"
  by (induction os name ics st rule: initConfLoop.induct) (auto simp: Let_def split: if_splits)

lemma configLoop_prefix:
  "\<exists>ys. fst (snd (configLoop os cs st)) = fst (snd st) @ ys"
proof (induction os cs st rule: configLoop.induct)
  case (1 os st)
  then show ?case by simp
next
  case (2 os config rest finalConfigs builtinState)
  obtain ys where a:
    "fst (initConfLoop os (Name config) (InitConfig config) builtinState) = fst builtinState @ ys"
    using initConfLoop_prefix by blast
  from 2 obtain zs where
    "fst (snd (configLoop os (config # rest) (finalConfigs, builtinState)))
       = fst (initConfLoop os (Name config) (InitConfig config) builtinState) @ zs"
    by auto
  with a show ?case by auto
qed

lemma configLoop_origin:
  "e \<in> set (fst (snd (configLoop os cs st))) \<Longrightarrow>
     e \<in> set (fst (snd st)) \<or>
     (\<exists>c \<in> set cs. \<exists>ic \<in> set (InitConfig c).
        e = \<lparr>Location = builtinLocationOf os (Location ic), AnalysisMode = [],
          ProviderSpecificConfig = (if Name c = ''builtin'' then ProviderSpecificConfig ic else None)\<rparr>)"
proof (induction os cs st rule: configLoop.induct)
  case (1 os st)
  then show ?case by simp
next
  case (2 os config rest finalConfigs builtinState)
  from 2 show ?case
    by (fastforce dest: initConfLoop_origin)
qed

lemma mergedBuiltin_eq:
  "mergedBuiltin os configs = fst (snd (configLoop os configs ([], [], Map.empty)))"
  by (simp add: mergedBuiltin_def setConfigsContainerless_def split: prod.splits)

lemma configLoop_append:
  "configLoop os (xs @ ys) st = configLoop os ys (configLoop os xs st)"
  by (induction os xs st rule: configLoop.induct) auto

lemma subset_chain: "X \<subseteq> A \<union> R \<Longrightarrow> A \<subseteq> B \<union> C \<Longrightarrow> X \<subseteq> B \<union> (C \<union> R)"
  by blast

lemma configLoop_seen_dom:
  "dom (snd (snd (configLoop os cs st)))
     \<subseteq> dom (snd (snd st))
        \<union> (\<Union>c \<in> set cs. (\<lambda>ic. builtinLocationOf os (Location ic)) ` set (InitConfig c))"
proof (induction os cs st rule: configLoop.induct)
  case (1 os st)
  then show ?case by simp
next
  case (2 os config rest finalConfigs builtinState)
  let ?N = "\<lambda>c. (\<lambda>ic. builtinLocationOf os (Location ic)) ` set (InitConfig c)"
  let ?bs = "initConfLoop os (Name config) (InitConfig config) builtinState"
  let ?fc = "if Name config \<noteq> ''builtin'' then finalConfigs @ [config] else finalConfigs"
  have a: "dom (snd ?bs) \<subseteq> dom (snd builtinState) \<union> ?N config"
    by (rule initConfLoop_seen_dom)
  have b: "dom (snd (snd (configLoop os rest (?fc, ?bs)))) \<subseteq> dom (snd ?bs) \<union> (\<Union>c \<in> set rest. ?N c)"
    using 2 by simp
  have "dom (snd (snd (configLoop os rest (?fc, ?bs))))
      \<subseteq> dom (snd builtinState) \<union> (?N config \<union> (\<Union>c \<in> set rest. ?N c))"
    by (rule subset_chain [OF b a])
  then show ?case by (simp add: Un_assoc)
qed

lemma mergedBuiltin_keeps_anywhere:
  fixes c :: "'c Config"
  assumes idem: "\<forall>l. builtinLocationOf os (builtinLocationOf os l) = builtinLocationOf os l"
    and nm: "Name c = ''builtin''" and ics: "InitConfig c = pre @ ic # post"
    and ne: "Location ic \<noteq> []" and dir: "statIsDir os (Location ic)"
    and before: "\<forall>c' \<in> set earlier. \<forall>p \<in> set (InitConfig c').
                   builtinLocationOf os (Location p) \<noteq> builtinLocationOf os (Location ic)"
    and pre: "\<forall>p \<in> set pre. builtinLocationOf os (Location p) \<noteq> builtinLocationOf os (Location ic)"
  shows "\<lparr>Location = builtinLocationOf os (Location ic), AnalysisMode = [],
           ProviderSpecificConfig = ProviderSpecificConfig ic\<rparr>
           \<in> set (mergedBuiltin os (earlier @ c # rest))"
proof -
  let ?e = "\<lparr>Location = builtinLocationOf os (Location ic), AnalysisMode = [],
           ProviderSpecificConfig = ProviderSpecificConfig ic\<rparr>"
  let ?N = "\<lambda>ic. builtinLocationOf os (Location ic)"
  let ?st0 = "configLoop os earlier ([] :: 'c Config list, [], Map.empty)"
  obtain f0 d0 s0 where st0: "?st0 = (f0, d0, s0)" by (cases ?st0)
  have dom0: "dom s0 \<subseteq> (\<Union>c' \<in> set earlier. ?N ` set (InitConfig c'))"
    using configLoop_seen_dom [of os earlier "([], [], Map.empty)"] st0 by simp
  let ?st1 = "initConfLoop os ''builtin'' pre (d0, s0)"
  obtain d1 s1 where st1: "?st1 = (d1, s1)" by (cases ?st1)
  have dom1: "dom s1 \<subseteq> dom s0 \<union> ?N ` set pre"
    using initConfLoop_seen_dom [of os "''builtin''" pre "(d0, s0)"] st1 by simp
  have "Location ic \<notin> dom s1"
  proof
    assume "Location ic \<in> dom s1"
    with dom1 have "Location ic \<in> dom s0 \<or> Location ic \<in> ?N ` set pre" by blast
    with dom0 have "(\<exists>c' \<in> set earlier. Location ic \<in> ?N ` set (InitConfig c'))
                     \<or> Location ic \<in> ?N ` set pre" by blast
    then obtain p where
      p: "(\<exists>c' \<in> set earlier. p \<in> set (InitConfig c')) \<or> p \<in> set pre"
      and eq: "Location ic = ?N p" by blast
    from eq have "?N ic = builtinLocationOf os (?N p)" by simp
    with idem have "?N p = ?N ic" by simp
    with p before pre show False by auto
  qed
  then have unseen: "s1 (Location ic) = None" by (simp add: domIff)
  let ?st2 = "initConfLoop os ''builtin'' [ic] (d1, s1)"
  have in2: "?e \<in> set (fst ?st2)"
    using unseen ne dir by (simp add: Let_def)
  have split: "initConfLoop os ''builtin'' (InitConfig c) (d0, s0)
      = initConfLoop os ''builtin'' post ?st2"
    using ics st1 initConfLoop_append [of os "''builtin''" pre "ic # post" "(d0, s0)"]
      initConfLoop_append [of os "''builtin''" "[ic]" post "(d1, s1)"]
    by simp
  obtain ys where "fst (initConfLoop os ''builtin'' post ?st2) = fst ?st2 @ ys"
    using initConfLoop_prefix by blast
  with in2 split
  have in3: "?e \<in> set (fst (initConfLoop os ''builtin'' (InitConfig c) (d0, s0)))"
    by simp
  let ?st3 = "(f0, initConfLoop os ''builtin'' (InitConfig c) (d0, s0))"
  have "configLoop os (earlier @ c # rest) ([], [], Map.empty) = configLoop os rest ?st3"
    using nm st0 by (simp add: configLoop_append)
  moreover obtain zs where "fst (snd (configLoop os rest ?st3)) = fst (snd ?st3) @ zs"
    using configLoop_prefix [of os rest ?st3] by blast
  ultimately show ?thesis
    using in3 by (simp add: mergedBuiltin_eq)
qed

lemma mergedBuiltin_implicit:
  assumes "e \<in> set (mergedBuiltin os configs)"
    and "\<forall>c \<in> set configs. Name c = ''builtin'' \<longrightarrow>
           (\<forall>ic \<in> set (InitConfig c). builtinLocationOf os (Location ic) \<noteq> Location e)"
  shows "ProviderSpecificConfig e = None"
proof -
  from assms(1) obtain c ic where c: "c \<in> set configs" "ic \<in> set (InitConfig c)"
    and e: "e = \<lparr>Location = builtinLocationOf os (Location ic), AnalysisMode = [],
          ProviderSpecificConfig = (if Name c = ''builtin'' then ProviderSpecificConfig ic else None)\<rparr>"
    using configLoop_origin [of e os configs "([], [], Map.empty)"]
    by (auto simp: mergedBuiltin_eq)
  show ?thesis
  proof (cases "Name c = ''builtin''")
    case True
    with assms(2) c have "builtinLocationOf os (Location ic) \<noteq> Location e" by blast
    with e show ?thesis by simp
  next
    case False
    with e show ?thesis by simp
  qed
qed

subsection \<open>Deduplication (C1)\<close>

text \<open>
  C1 at a concrete input. The fallback config names the directory as \<open>app\<close> and the
  Java config names it as \<open>./app\<close>; both spell \<open>/work/app\<close>. The merged fallback
  config holds two entries for \<open>/work/app\<close>, not one: the map of seen locations is
  written at the absolute path and read at the spelling of the init config. The same
  happens when both configs use the one spelling \<open>app\<close>.
\<close>

theorem setConfigsContainerless_duplicate_entries:
  "mergedBuiltin workdir_os
      [cfg ''builtin'' [(''app'', None)], cfg ''java'' [(''./app'', Some ''jdtls'')]]
     = [\<lparr>Location = ''/work/app'', AnalysisMode = [], ProviderSpecificConfig = None\<rparr>,
        \<lparr>Location = ''/work/app'', AnalysisMode = [], ProviderSpecificConfig = None\<rparr>]
   \<and> mergedBuiltin workdir_os
      [cfg ''builtin'' [(''app'', None)], cfg ''java'' [(''app'', Some ''jdtls'')]]
     = [\<lparr>Location = ''/work/app'', AnalysisMode = [], ProviderSpecificConfig = None\<rparr>,
        \<lparr>Location = ''/work/app'', AnalysisMode = [], ProviderSpecificConfig = None\<rparr>]"
  by (simp add: mergedBuiltin_def setConfigsContainerless_def cfg_def workdir_os_def
        builtinLocationOf_def Let_def)

subsection \<open>Provider-specific configuration of the merged entries (C5)\<close>

text \<open>
  C5, as stated, fails: the order of the configs matters. When the Java config comes
  before the fallback config and both name \<open>/work/app\<close>, the entry for \<open>/work/app\<close>
  is made from the Java config, without provider-specific configuration, and the
  fallback config's own init config for that location is then skipped as seen.
\<close>

theorem mergedBuiltin_order_counterexample:
  "mergedBuiltin workdir_os
      [cfg ''java'' [(''/work/app'', Some ''java-settings'')],
       cfg ''builtin'' [(''/work/app'', Some ''builtin-settings'')]]
     = [\<lparr>Location = ''/work/app'', AnalysisMode = [], ProviderSpecificConfig = None\<rparr>]"
  by (simp add: mergedBuiltin_def setConfigsContainerless_def cfg_def workdir_os_def
        builtinLocationOf_def Let_def)

text \<open>
  C5, amended. (1) Wherever the fallback config stands in the input: when one of its
  init configs names an existing directory, and no init config before it in the input,
  of any provider, resolves to the same absolute path, the merged fallback config has
  an entry for that absolute path that carries the init config's provider-specific
  configuration. (2) In any order of the configs, an entry of the merged fallback
  config whose location no init config of a fallback config resolves to carries no
  provider-specific configuration. The operating system is taken to resolve an absolute
  path that it returned to itself, as \<^verbatim>\<open>filepath.Abs\<close> does.
\<close>

theorem mergedBuiltin_provider_specific_config:
  fixes c :: "'c Config"
  shows
  "((\<forall>l. builtinLocationOf os (builtinLocationOf os l) = builtinLocationOf os l)
      \<and> Name c = ''builtin'' \<and> InitConfig c = pre @ ic # post
      \<and> Location ic \<noteq> [] \<and> statIsDir os (Location ic)
      \<and> (\<forall>c' \<in> set earlier. \<forall>p \<in> set (InitConfig c').
            builtinLocationOf os (Location p) \<noteq> builtinLocationOf os (Location ic))
      \<and> (\<forall>p \<in> set pre. builtinLocationOf os (Location p) \<noteq> builtinLocationOf os (Location ic))
    \<longrightarrow> \<lparr>Location = builtinLocationOf os (Location ic), AnalysisMode = [],
          ProviderSpecificConfig = ProviderSpecificConfig ic\<rparr>
          \<in> set (mergedBuiltin os (earlier @ c # rest)))
   \<and> (e \<in> set (mergedBuiltin os configs)
      \<and> (\<forall>c' \<in> set configs. Name c' = ''builtin'' \<longrightarrow>
            (\<forall>ic' \<in> set (InitConfig c'). builtinLocationOf os (Location ic') \<noteq> Location e))
    \<longrightarrow> ProviderSpecificConfig e = None)"
proof (intro conjI impI)
  assume h: "(\<forall>l. builtinLocationOf os (builtinLocationOf os l) = builtinLocationOf os l)
      \<and> Name c = ''builtin'' \<and> InitConfig c = pre @ ic # post
      \<and> Location ic \<noteq> [] \<and> statIsDir os (Location ic)
      \<and> (\<forall>c' \<in> set earlier. \<forall>p \<in> set (InitConfig c').
            builtinLocationOf os (Location p) \<noteq> builtinLocationOf os (Location ic))
      \<and> (\<forall>p \<in> set pre. builtinLocationOf os (Location p) \<noteq> builtinLocationOf os (Location ic))"
  show "\<lparr>Location = builtinLocationOf os (Location ic), AnalysisMode = [],
          ProviderSpecificConfig = ProviderSpecificConfig ic\<rparr>
          \<in> set (mergedBuiltin os (earlier @ c # rest))"
    using h by (intro mergedBuiltin_keeps_anywhere [of os c pre ic post earlier rest]) blast+
next
  assume h: "e \<in> set (mergedBuiltin os configs)
      \<and> (\<forall>c' \<in> set configs. Name c' = ''builtin'' \<longrightarrow>
            (\<forall>ic' \<in> set (InitConfig c'). builtinLocationOf os (Location ic') \<noteq> Location e))"
  show "ProviderSpecificConfig e = None"
    using h by (intro mergedBuiltin_implicit [of e os configs]) blast+
qed

theorem mergedBuiltin_provider_specific_config_witness:
  "\<lparr>Location = ''/work/app'', AnalysisMode = [], ProviderSpecificConfig = Some ''builtin-settings''\<rparr>
     \<in> set (mergedBuiltin workdir_os
         [cfg ''java'' [(''/work/lib'', Some ''java-settings'')],
          cfg ''builtin'' [(''app'', Some ''builtin-settings'')],
          cfg ''java'' [(''/work/app'', Some ''java-settings'')]])
   \<and> \<lparr>Location = ''/work/lib'', AnalysisMode = [], ProviderSpecificConfig = None\<rparr>
     \<in> set (mergedBuiltin workdir_os
         [cfg ''java'' [(''/work/lib'', Some ''java-settings'')],
          cfg ''builtin'' [(''app'', Some ''builtin-settings'')],
          cfg ''java'' [(''/work/app'', Some ''java-settings'')]])"
proof -
  let ?java1 = "cfg ''java'' [(''/work/lib'', Some ''java-settings'')]"
  let ?builtin = "cfg ''builtin'' [(''app'', Some ''builtin-settings'')]"
  let ?java2 = "cfg ''java'' [(''/work/app'', Some ''java-settings'')]"
  let ?ic = "\<lparr>Location = ''app'', AnalysisMode = ''full'',
               ProviderSpecificConfig = Some ''builtin-settings''\<rparr>"
  let ?e = "\<lparr>Location = ''/work/lib'', AnalysisMode = [],
              ProviderSpecificConfig = None :: string option\<rparr>"
  have idem: "\<forall>l. builtinLocationOf workdir_os (builtinLocationOf workdir_os l)
                 = builtinLocationOf workdir_os l"
    by (simp add: builtinLocationOf_def workdir_os_def)
  have app: "builtinLocationOf workdir_os ''app'' = ''/work/app''"
    and lib: "builtinLocationOf workdir_os ''/work/lib'' = ''/work/lib''"
    and wapp: "builtinLocationOf workdir_os ''/work/app'' = ''/work/app''"
    by (simp_all add: builtinLocationOf_def workdir_os_def)
  have h1: "(\<forall>l. builtinLocationOf workdir_os (builtinLocationOf workdir_os l)
                 = builtinLocationOf workdir_os l)
      \<and> Name ?builtin = ''builtin'' \<and> InitConfig ?builtin = [] @ ?ic # []
      \<and> Location ?ic \<noteq> [] \<and> statIsDir workdir_os (Location ?ic)
      \<and> (\<forall>c' \<in> set [?java1]. \<forall>p \<in> set (InitConfig c').
            builtinLocationOf workdir_os (Location p) \<noteq> builtinLocationOf workdir_os (Location ?ic))
      \<and> (\<forall>p \<in> set []. builtinLocationOf workdir_os (Location p)
            \<noteq> builtinLocationOf workdir_os (Location ?ic))"
    using idem by (simp add: cfg_def app lib) (simp add: workdir_os_def)
  have mem: "?e \<in> set (mergedBuiltin workdir_os [?java1, ?builtin, ?java2])"
    by (simp add: mergedBuiltin_def setConfigsContainerless_def cfg_def workdir_os_def
          builtinLocationOf_def Let_def)
  have h2: "?e \<in> set (mergedBuiltin workdir_os [?java1, ?builtin, ?java2])
      \<and> (\<forall>c' \<in> set [?java1, ?builtin, ?java2]. Name c' = ''builtin'' \<longrightarrow>
            (\<forall>ic' \<in> set (InitConfig c').
               builtinLocationOf workdir_os (Location ic') \<noteq> Location ?e))"
    using mem by (simp add: cfg_def app)
  from mergedBuiltin_provider_specific_config
    [where c = ?builtin and pre = "[]" and ic = ?ic and post = "[]" and os = workdir_os
       and earlier = "[?java1]" and rest = "[?java2]" and e = ?e
       and configs = "[?java1, ?builtin, ?java2]"] h1 h2
  have "\<lparr>Location = builtinLocationOf workdir_os (Location ?ic), AnalysisMode = [],
          ProviderSpecificConfig = ProviderSpecificConfig ?ic\<rparr>
          \<in> set (mergedBuiltin workdir_os ([?java1] @ ?builtin # [?java2]))"
    by blast
  then have "\<lparr>Location = ''/work/app'', AnalysisMode = [],
          ProviderSpecificConfig = Some ''builtin-settings''\<rparr>
          \<in> set (mergedBuiltin workdir_os [?java1, ?builtin, ?java2])"
    by (simp add: app)
  with mem show ?thesis by blast
qed

section \<open>Properties of the provider start\<close>

lemma initLoop_fails:
  assumes "(name, p) \<in> set nps" and "name \<noteq> ''builtin''" and "snd (ProviderInit p []) \<noteq> None"
  shows "initLoop nps acc = Exit 1"
  using assms
proof (induction nps arbitrary: acc)
  case Nil
  then show ?case by simp
next
  case (Cons np rest)
  obtain n q where np: "np = (n, q)" by (cases np)
  obtain confs e where pi: "ProviderInit q [] = (confs, e)" by (cases "ProviderInit q []")
  show ?case
  proof (cases "n = ''builtin'' \<or> e = None")
    case True
    with Cons.prems np pi have "(name, p) \<in> set rest" by auto
    then have "\<And>acc'. initLoop rest acc' = Exit 1"
      using Cons.IH Cons.prems(2,3) by blast
    with np pi True show ?thesis by auto
  next
    case False
    with np pi show ?thesis by auto
  qed
qed

lemma initLoop_succeeds:
  assumes "\<forall>(name, p) \<in> set nps. name \<noteq> ''builtin'' \<longrightarrow> snd (ProviderInit p []) = None"
  shows "initLoop nps acc = Return (acc @ collectedConfigs nps)"
  using assms
proof (induction nps arbitrary: acc)
  case Nil
  then show ?case by (simp add: collectedConfigs_def)
next
  case (Cons np rest)
  obtain n q where np: "np = (n, q)" by (cases np)
  obtain confs e where pi: "ProviderInit q [] = (confs, e)" by (cases "ProviderInit q []")
  have ih: "\<And>acc'. initLoop rest acc' = Return (acc' @ collectedConfigs rest)"
    using Cons.IH Cons.prems by simp
  show ?case
  proof (cases "n = ''builtin''")
    case True
    with np ih show ?thesis by (simp add: collectedConfigs_def)
  next
    case False
    with Cons.prems np pi have "e = None" by simp
    with False np pi ih show ?thesis by (simp add: collectedConfigs_def)
  qed
qed

lemma start_nonfallback_fails:
  assumes "(name, p) \<in> set nps" and "name \<noteq> ''builtin''" and "snd (ProviderInit p []) \<noteq> None"
  shows "startProvidersContainerless nps = Exit 1"
  using initLoop_fails [OF assms] by (simp add: startProvidersContainerless_def)

lemma start_fallback_fails:
  assumes "map_of nps ''builtin'' = Some b"
    and "\<forall>(name, p) \<in> set nps. name \<noteq> ''builtin'' \<longrightarrow> snd (ProviderInit p []) = None"
    and "snd (ProviderInit b (collectedConfigs nps)) = Some err"
  shows "startProvidersContainerless nps = Return (Some err)"
proof -
  obtain confs where "ProviderInit b (collectedConfigs nps) = (confs, Some err)"
    using assms(3) by (cases "ProviderInit b (collectedConfigs nps)") auto
  then show ?thesis
    using initLoop_succeeds [OF assms(2), of "[]"] assms(1)
    by (simp add: startProvidersContainerless_def)
qed

subsection \<open>The run around the provider start\<close>

lemma run_start_failed:
  assumes "startProvidersContainerless (needProviders w) \<noteq> Return None"
  shows "snd (RunAnalysisContainerless a w files0)
           = \<lparr>files = files0, depTaskStarted = False, rulesEvaluated = False\<rparr>
         \<and> fst (RunAnalysisContainerless a w files0) \<noteq> Return None"
proof (cases "startProvidersContainerless (needProviders w)")
  case (Exit code)
  then show ?thesis
    by (simp add: RunAnalysisContainerless_def Let_def)
next
  case (Return e)
  with assms obtain err where "e = Some err" by (cases e) auto
  with Return show ?thesis
    by (simp add: RunAnalysisContainerless_def Let_def)
qed

lemma run_start_exits:
  assumes "startProvidersContainerless (needProviders w) = Exit 1
           \<or> startProvidersContainerless (needProviders w) = Return (Some err)"
    and "reachesProviderStart a w"
  shows "fst (RunAnalysisContainerless a w files0) = Exit 1"
  using assms
  by (auto simp: RunAnalysisContainerless_def Let_def reachesProviderStart_def ruleSelectors_def)

lemma run_preflight_fails:
  assumes "\<not> reachesProviderStart a w"
  shows "snd (RunAnalysisContainerless a w files0)
           = \<lparr>files = files0, depTaskStarted = False, rulesEvaluated = False\<rparr>
         \<and> fst (RunAnalysisContainerless a w files0) \<noteq> Return None"
  using assms
  by (auto simp: RunAnalysisContainerless_def Let_def reachesProviderStart_def ruleSelectors_def)

lemma run_started:
  assumes "reachesProviderStart a w"
    and "startProvidersContainerless (needProviders w) = Return None"
  shows "depTaskStarted (snd (RunAnalysisContainerless a w files0)) = (mode a = FullAnalysisMode)"
    and "rulesEvaluated (snd (RunAnalysisContainerless a w files0))"
    and "files (snd (RunAnalysisContainerless a w files0)) ''dependencies.yaml''
           = (if mode a = FullAnalysisMode
              then DependencyOutputContainerless (depsFaults w) (providers w)
                      ''dependencies.yaml'' files0 ''dependencies.yaml''
              else files0 ''dependencies.yaml'')"
    and "fst (RunAnalysisContainerless a w files0) = Return None \<longrightarrow>
           files (snd (RunAnalysisContainerless a w files0)) ''output.yaml''
             = Some (RuleSetsYaml (SliceStable rulesetLess (RunRules w (ruleSelectors a w))))"
  using assms
  by (auto simp: RunAnalysisContainerless_def Let_def reachesProviderStart_def ruleSelectors_def
        split: outcome.split option.split)

subsection \<open>Failure of a provider's initialisation (C4)\<close>

text \<open>
  C4. If the initialisation of a provider other than the fallback provider returns an
  error, \<open>startProvidersContainerless\<close> ends the process with exit code 1; the run
  leaves the output directory as it found it and has not evaluated any rule. If every
  other provider starts and the initialisation of the fallback provider returns an
  error, \<open>startProvidersContainerless\<close> does not end the process: it returns that
  error to its caller. The caller, the run, then stops before the rule engine is asked
  to evaluate, with nothing written.
\<close>

theorem provider_init_failure:
  "((name, p) \<in> set nps \<and> name \<noteq> ''builtin'' \<and> snd (ProviderInit p []) \<noteq> None
      \<longrightarrow> startProvidersContainerless nps = Exit 1
          \<and> (needProviders w = nps \<longrightarrow>
                snd (RunAnalysisContainerless a w files0)
                  = \<lparr>files = files0, depTaskStarted = False, rulesEvaluated = False\<rparr>
                \<and> (reachesProviderStart a w \<longrightarrow> fst (RunAnalysisContainerless a w files0) = Exit 1)))
   \<and> (map_of nps ''builtin'' = Some b
       \<and> (\<forall>(n, q) \<in> set nps. n \<noteq> ''builtin'' \<longrightarrow> snd (ProviderInit q []) = None)
       \<and> snd (ProviderInit b (collectedConfigs nps)) = Some err
      \<longrightarrow> startProvidersContainerless nps = Return (Some err)
          \<and> (needProviders w = nps \<longrightarrow>
                snd (RunAnalysisContainerless a w files0)
                  = \<lparr>files = files0, depTaskStarted = False, rulesEvaluated = False\<rparr>
                \<and> (reachesProviderStart a w \<longrightarrow> fst (RunAnalysisContainerless a w files0) = Exit 1)))"
proof (intro conjI impI)
  assume h: "(name, p) \<in> set nps \<and> name \<noteq> ''builtin'' \<and> snd (ProviderInit p []) \<noteq> None"
  then show s: "startProvidersContainerless nps = Exit 1"
    using start_nonfallback_fails by blast
  { assume n: "needProviders w = nps"
    with s show "snd (RunAnalysisContainerless a w files0)
                  = \<lparr>files = files0, depTaskStarted = False, rulesEvaluated = False\<rparr>"
      using run_start_failed [of w a files0] by simp
    assume "reachesProviderStart a w"
    with s n show "fst (RunAnalysisContainerless a w files0) = Exit 1"
      using run_start_exits [of w err a files0] by simp }
next
  assume h: "map_of nps ''builtin'' = Some b
       \<and> (\<forall>(n, q) \<in> set nps. n \<noteq> ''builtin'' \<longrightarrow> snd (ProviderInit q []) = None)
       \<and> snd (ProviderInit b (collectedConfigs nps)) = Some err"
  then show s: "startProvidersContainerless nps = Return (Some err)"
    using start_fallback_fails by blast
  { assume n: "needProviders w = nps"
    with s show "snd (RunAnalysisContainerless a w files0)
                  = \<lparr>files = files0, depTaskStarted = False, rulesEvaluated = False\<rparr>"
      using run_start_failed [of w a files0] by simp
    assume "reachesProviderStart a w"
    with s n show "fst (RunAnalysisContainerless a w files0) = Exit 1"
      using run_start_exits [of w err a files0] by simp }
qed

theorem provider_init_failure_witness:
  "startProvidersContainerless
      [(''java'', clientInitFails :: (unit, string) InternalProviderClient), (''builtin'', clientWith [])]
     = Exit 1
   \<and> RunAnalysisContainerless (demoCommand ''full'')
        (calmWorld [(''java'', clientInitFails :: (unit, string) InternalProviderClient),
                    (''builtin'', clientWith [])] [rsZeta, rsAlpha]) Map.empty
     = (Exit 1, \<lparr>files = Map.empty, depTaskStarted = False, rulesEvaluated = False\<rparr>)
   \<and> startProvidersContainerless
      [(''java'', clientWith pomDeps :: (unit, string) InternalProviderClient), (''builtin'', clientInitFails)]
     = Return (Some ''failed to init'')
   \<and> RunAnalysisContainerless (demoCommand ''full'')
        (calmWorld [(''java'', clientWith pomDeps :: (unit, string) InternalProviderClient),
                    (''builtin'', clientInitFails)] [rsZeta, rsAlpha]) Map.empty
     = (Exit 1, \<lparr>files = Map.empty, depTaskStarted = False, rulesEvaluated = False\<rparr>)"
proof -
  let ?n1 = "[(''java'', clientInitFails :: (unit, string) InternalProviderClient), (''builtin'', clientWith [])]"
  let ?n2 = "[(''java'', clientWith pomDeps :: (unit, string) InternalProviderClient), (''builtin'', clientInitFails)]"
  let ?w1 = "calmWorld ?n1 [rsZeta, rsAlpha]"
  let ?w2 = "calmWorld ?n2 [rsZeta, rsAlpha]"
  have r: "reachesProviderStart (demoCommand ''full'') ?w1" "reachesProviderStart (demoCommand ''full'') ?w2"
    by (simp_all add: reachesProviderStart_def calmWorld_def ruleSelectors_def demoCommand_def
          Let_def)
  have n: "needProviders ?w1 = ?n1" "needProviders ?w2 = ?n2"
    by (simp_all add: calmWorld_def)
  have a1: "(''java'', clientInitFails) \<in> set ?n1 \<and> ''java'' \<noteq> ''builtin''
        \<and> snd (ProviderInit (clientInitFails :: (unit, string) InternalProviderClient) []) \<noteq> None"
    by (simp add: clientInitFails_def)
  have a2: "map_of ?n2 ''builtin'' = Some clientInitFails
       \<and> (\<forall>(n, q) \<in> set ?n2. n \<noteq> ''builtin'' \<longrightarrow> snd (ProviderInit q []) = None)
       \<and> snd (ProviderInit (clientInitFails :: (unit, string) InternalProviderClient) (collectedConfigs ?n2))
           = Some ''failed to init''"
    by (simp add: clientInitFails_def clientWith_def)
  from provider_init_failure [where name = "''java''" and p = clientInitFails and nps = ?n1 and w = ?w1
             and a = "demoCommand ''full''" and ?files0.0 = Map.empty] a1 n(1) r(1)
  have p1: "startProvidersContainerless ?n1 = Exit 1
       \<and> RunAnalysisContainerless (demoCommand ''full'') ?w1 Map.empty
          = (Exit 1, \<lparr>files = Map.empty, depTaskStarted = False, rulesEvaluated = False\<rparr>)"
    by (simp add: prod_eq_iff)
  from provider_init_failure [where b = clientInitFails and nps = ?n2 and w = ?w2 and err = "''failed to init''"
             and a = "demoCommand ''full''" and ?files0.0 = Map.empty] a2 n(2) r(2)
  have p2: "startProvidersContainerless ?n2 = Return (Some ''failed to init'')
       \<and> RunAnalysisContainerless (demoCommand ''full'') ?w2 Map.empty
          = (Exit 1, \<lparr>files = Map.empty, depTaskStarted = False, rulesEvaluated = False\<rparr>)"
    by (simp add: prod_eq_iff)
  from p1 p2 show ?thesis by simp
qed

section \<open>Properties of the stable sort\<close>

text \<open>
  For a \<open>less\<close> that compares a key in a linear order, \<open>SliceStable\<close> is the stable
  insertion sort of the library, so its result is sorted by the key, is a permutation
  of the input and keeps elements with equal keys in their order.
\<close>

lemma insertStable_insort_key:
  fixes f :: "'a \<Rightarrow> 'k::linorder"
  shows "insertStable (\<lambda>a b. f a < f b) x ys = insort_key f x ys"
  by (induction ys) (auto simp: not_less)

lemma SliceStable_sort_key:
  fixes f :: "'a \<Rightarrow> 'k::linorder"
  shows "SliceStable (\<lambda>a b. f a < f b) xs = sort_key f xs"
  by (induction xs) (simp_all add: SliceStable_def sort_key_def insertStable_insort_key)

lemma mset_insertStable: "mset (insertStable lessFn x ys) = add_mset x (mset ys)"
  by (induction ys) auto

lemma mset_SliceStable: "mset (SliceStable lessFn xs) = mset xs"
  by (induction xs) (simp_all add: SliceStable_def mset_insertStable)

lemma SliceStable_rulesetLess: "SliceStable rulesetLess rs = sort_key RuleSetName rs"
  by (simp add: rulesetLess_def [abs_def] SliceStable_sort_key)

lemma names_sorted: "map RuleSetName (sort_key RuleSetName rs) = sort (map RuleSetName rs)"
  by (rule properties_for_sort [symmetric]) simp_all

lemma sort_key_names_indep:
  assumes "mset rs = mset rs'"
  shows "map RuleSetName (sort_key RuleSetName rs) = map RuleSetName (sort_key RuleSetName rs')"
proof -
  have "mset (map RuleSetName rs) = mset (map RuleSetName rs')"
    using assms by (metis mset_map)
  then have "sort (map RuleSetName rs) = sort (map RuleSetName rs')"
    by (metis properties_for_sort sorted_sort mset_sort)
  then show ?thesis by (simp add: names_sorted)
qed

lemma filter_key_singleton:
  "distinct (map f zs) \<Longrightarrow> k \<in> set zs \<Longrightarrow> filter (\<lambda>x. f k = f x) zs = [k]"
proof (induction zs)
  case Nil
  then show ?case by simp
next
  case (Cons z zs)
  show ?case
  proof (cases "k = z")
    case True
    with Cons.prems have "\<forall>x \<in> set zs. f k \<noteq> f x" by auto
    then have "filter (\<lambda>x. f k = f x) zs = []" by (simp add: filter_empty_conv)
    with True show ?thesis by simp
  next
    case False
    with Cons.prems have kz: "k \<in> set zs" by simp
    from Cons.prems have "f z \<notin> f ` set zs" by simp
    with kz have "f k \<noteq> f z" by (metis imageI)
    with kz Cons show ?thesis by simp
  qed
qed

lemma sort_key_distinct_indep:
  fixes f :: "'a \<Rightarrow> 'k::linorder"
  assumes "mset xs = mset ys" and "distinct (map f xs)"
  shows "sort_key f xs = sort_key f ys"
proof (rule properties_for_sort_key)
  show "mset (sort_key f ys) = mset xs" using assms by simp
  show "sorted (map f (sort_key f ys))" by simp
  fix k assume "k \<in> set (sort_key f ys)"
  then have ky: "k \<in> set ys" by simp
  then have kx: "k \<in> set xs" using assms(1) by (metis mset_eq_setD)
  have "mset (map f xs) = mset (map f ys)" using assms(1) by (metis mset_map)
  with assms(2) have dy: "distinct (map f ys)" by (metis mset_eq_imp_distinct_iff)
  have "mset (map f (sort_key f ys)) = mset (map f ys)" by simp
  with dy have ds: "distinct (map f (sort_key f ys))" by (metis mset_eq_imp_distinct_iff)
  have "filter (\<lambda>x. f k = f x) (sort_key f ys) = [k]"
    using ds \<open>k \<in> set (sort_key f ys)\<close> by (rule filter_key_singleton)
  moreover have "filter (\<lambda>x. f k = f x) xs = [k]"
    using assms(2) kx by (rule filter_key_singleton)
  ultimately show "filter (\<lambda>x. f k = f x) (sort_key f ys) = filter (\<lambda>x. f k = f x) xs"
    by simp
qed

section \<open>Properties of the analysis run\<close>

lemma run_success_output:
  "fst (RunAnalysisContainerless a w files0) = Return None \<longrightarrow>
     files (snd (RunAnalysisContainerless a w files0)) ''output.yaml''
        = Some (RuleSetsYaml (SliceStable rulesetLess (RunRules w (ruleSelectors a w))))"
proof (cases "reachesProviderStart a w
                \<and> startProvidersContainerless (needProviders w) = Return None")
  case True
  with run_started(4) [of a w files0] show ?thesis by simp
next
  case False
  then have "fst (RunAnalysisContainerless a w files0) \<noteq> Return None"
    using run_preflight_fails [of a w files0] run_start_failed [of w a files0] by blast
  then show ?thesis by simp
qed

subsection \<open>Source-only mode (C6)\<close>

text \<open>
  C6, as stated, fails in two places. The run never removes a dependency artifact: a
  source-only run over an output directory that already holds \<open>dependencies.yaml\<close>
  returns without error and the file is still there. And a run that stops early writes
  no rule results: when validation fails, a source-only run over an empty output
  directory returns the error and leaves no \<open>output.yaml\<close>.
\<close>

theorem source_only_stale_dependencies_counterexample:
  "mode (demoCommand ''source-only'') = SourceOnlyAnalysisMode
   \<and> fst (RunAnalysisContainerless (demoCommand ''source-only'')
        (calmWorld [(''builtin'', clientWith [] :: (unit, string) InternalProviderClient),
                    (''java'', clientWith pomDeps)] [rsZeta, rsAlpha]) staleOutput) = Return None
   \<and> files (snd (RunAnalysisContainerless (demoCommand ''source-only'')
        (calmWorld [(''builtin'', clientWith [] :: (unit, string) InternalProviderClient),
                    (''java'', clientWith pomDeps)] [rsZeta, rsAlpha]) staleOutput)) ''dependencies.yaml''
       = Some (DepsYaml [\<lparr>Provider = ''java'', FileURI = ''file:///work/old/pom.xml'',
                          Dependencies = [''commons-io'']\<rparr>])
   \<and> fst (RunAnalysisContainerless (demoCommand ''source-only'')
        ((calmWorld [(''builtin'', clientWith [] :: (unit, string) InternalProviderClient),
                     (''java'', clientWith pomDeps)] [rsZeta, rsAlpha])
           \<lparr>validateErr := Some ''cannot open required path''\<rparr>)
        (Map.empty :: string \<rightharpoonup> (string, string) document))
       = Return (Some ''cannot open required path'')
   \<and> files (snd (RunAnalysisContainerless (demoCommand ''source-only'')
        ((calmWorld [(''builtin'', clientWith [] :: (unit, string) InternalProviderClient),
                     (''java'', clientWith pomDeps)] [rsZeta, rsAlpha])
           \<lparr>validateErr := Some ''cannot open required path''\<rparr>)
        (Map.empty :: string \<rightharpoonup> (string, string) document))) ''output.yaml''
       = None"
  by (simp add: RunAnalysisContainerless_def Let_def calmWorld_def demoCommand_def
        startProvidersContainerless_def clientWith_def noFaults_def FullAnalysisMode_def
        SourceOnlyAnalysisMode_def staleOutput_def)

text \<open>
  C6, amended. In source-only mode the run never starts the dependency task and
  neither creates nor changes \<open>dependencies.yaml\<close>: the output directory holds that
  file after the run exactly if it held it before, so no dependency artifact exists
  after a run over an output directory that held none. The rule results are still
  produced: whenever the run returns without error, \<open>output.yaml\<close> holds the rule
  engine's results, sorted by ruleset name.
\<close>

theorem source_only_no_dependency_task:
  assumes "mode a = SourceOnlyAnalysisMode"
  shows "\<not> depTaskStarted (snd (RunAnalysisContainerless a w files0))
     \<and> files (snd (RunAnalysisContainerless a w files0)) ''dependencies.yaml''
         = files0 ''dependencies.yaml''
     \<and> (files0 ''dependencies.yaml'' = None \<longrightarrow>
          files (snd (RunAnalysisContainerless a w files0)) ''dependencies.yaml'' = None)
     \<and> (fst (RunAnalysisContainerless a w files0) = Return None \<longrightarrow>
          files (snd (RunAnalysisContainerless a w files0)) ''output.yaml''
            = Some (RuleSetsYaml (SliceStable rulesetLess (RunRules w (ruleSelectors a w)))))"
proof (cases "reachesProviderStart a w
                \<and> startProvidersContainerless (needProviders w) = Return None")
  case True
  have "mode a \<noteq> FullAnalysisMode"
    using assms by (simp add: SourceOnlyAnalysisMode_def FullAnalysisMode_def)
  with True run_started [of a w files0] show ?thesis by simp
next
  case False
  then have "snd (RunAnalysisContainerless a w files0)
           = \<lparr>files = files0, depTaskStarted = False, rulesEvaluated = False\<rparr>
         \<and> fst (RunAnalysisContainerless a w files0) \<noteq> Return None"
    using run_preflight_fails [of a w files0] run_start_failed [of w a files0] by blast
  then show ?thesis by simp
qed

theorem source_only_no_dependency_task_witness:
  "mode (demoCommand ''source-only'') = SourceOnlyAnalysisMode
   \<and> fst (RunAnalysisContainerless (demoCommand ''source-only'')
        (calmWorld [(''builtin'', clientWith [] :: (unit, string) InternalProviderClient),
                    (''java'', clientWith pomDeps)] [rsZeta, rsAlpha]) Map.empty) = Return None
   \<and> \<not> depTaskStarted (snd (RunAnalysisContainerless (demoCommand ''source-only'')
        (calmWorld [(''builtin'', clientWith [] :: (unit, string) InternalProviderClient),
                    (''java'', clientWith pomDeps)] [rsZeta, rsAlpha]) Map.empty))
   \<and> files (snd (RunAnalysisContainerless (demoCommand ''source-only'')
        (calmWorld [(''builtin'', clientWith [] :: (unit, string) InternalProviderClient),
                    (''java'', clientWith pomDeps)] [rsZeta, rsAlpha]) Map.empty)) ''dependencies.yaml''
       = None
   \<and> files (snd (RunAnalysisContainerless (demoCommand ''source-only'')
        (calmWorld [(''builtin'', clientWith [] :: (unit, string) InternalProviderClient),
                    (''java'', clientWith pomDeps)] [rsZeta, rsAlpha]) Map.empty)) ''output.yaml''
       = Some (RuleSetsYaml [rsAlpha, rsZeta])"
proof -
  let ?w = "calmWorld [(''builtin'', clientWith [] :: (unit, string) InternalProviderClient),
                    (''java'', clientWith pomDeps)] [rsZeta, rsAlpha] :: (unit, string, string) world"
  have m: "mode (demoCommand ''source-only'') = SourceOnlyAnalysisMode"
    by (simp add: demoCommand_def SourceOnlyAnalysisMode_def)
  have ok: "fst (RunAnalysisContainerless (demoCommand ''source-only'') ?w Map.empty) = Return None"
    by (simp add: RunAnalysisContainerless_def Let_def calmWorld_def demoCommand_def
          startProvidersContainerless_def clientWith_def noFaults_def FullAnalysisMode_def)
  have srt: "SliceStable rulesetLess (RunRules ?w (ruleSelectors (demoCommand ''source-only'') ?w))
               = [rsAlpha, rsZeta]"
    by (simp add: calmWorld_def SliceStable_def rulesetLess_def rsAlpha_def rsZeta_def)
  from source_only_no_dependency_task [OF m, of ?w Map.empty] m ok srt show ?thesis by simp
qed

subsection \<open>Order of the serialized rule results (C9)\<close>

text \<open>
  C9, as stated, fails for results that share a ruleset name. The sort is stable and
  compares names only, so two results named \<open>alpha\<close> are written in the order in
  which the engine returned them: the same two results, returned in the two possible
  orders, give two different \<open>output.yaml\<close> documents.
\<close>

theorem rulesets_order_counterexample:
  "files (snd (RunAnalysisContainerless (demoCommand ''source-only'')
        (calmWorld ([] :: (string \<times> (unit, string) InternalProviderClient) list) [rsAlpha, rsAlpha2])
        Map.empty)) ''output.yaml''
   \<noteq> files (snd (RunAnalysisContainerless (demoCommand ''source-only'')
        (calmWorld ([] :: (string \<times> (unit, string) InternalProviderClient) list) [rsAlpha2, rsAlpha])
        Map.empty)) ''output.yaml''"
  by (simp add: RunAnalysisContainerless_def Let_def calmWorld_def demoCommand_def
        startProvidersContainerless_def noFaults_def FullAnalysisMode_def
        SliceStable_def rulesetLess_def rsAlpha_def rsAlpha2_def)

text \<open>
  C9, amended. The results are sorted by ruleset name before they are serialized: the
  serialized list is sorted by name, is a permutation of the engine's list, and keeps
  results of the same name in the engine's order. The sequence of names in the
  serialized list does not depend on the engine's order, and when the names are
  pairwise distinct the whole serialized list does not depend on it. A run that returns
  without error has written this sorted list to \<open>output.yaml\<close>.
\<close>

theorem rulesets_sorted_before_serialization:
  "sorted (map RuleSetName (SliceStable rulesetLess rs))
   \<and> mset (SliceStable rulesetLess rs) = mset rs
   \<and> filter (\<lambda>r. RuleSetName r = k) (SliceStable rulesetLess rs) = filter (\<lambda>r. RuleSetName r = k) rs
   \<and> (mset rs = mset rs' \<longrightarrow>
        map RuleSetName (SliceStable rulesetLess rs) = map RuleSetName (SliceStable rulesetLess rs'))
   \<and> (mset rs = mset rs' \<and> distinct (map RuleSetName rs) \<longrightarrow>
        SliceStable rulesetLess rs = SliceStable rulesetLess rs')
   \<and> (fst (RunAnalysisContainerless a w files0) = Return None \<longrightarrow>
        files (snd (RunAnalysisContainerless a w files0)) ''output.yaml''
          = Some (RuleSetsYaml (SliceStable rulesetLess (RunRules w (ruleSelectors a w)))))"
  using sort_key_names_indep [of rs rs'] sort_key_distinct_indep [of rs rs' RuleSetName]
    run_success_output [of a w files0]
  by (simp add: SliceStable_rulesetLess sort_key_stable)

theorem rulesets_sorted_before_serialization_witness:
  "SliceStable rulesetLess [rsZeta, rsAlpha] = [rsAlpha, rsZeta]
   \<and> SliceStable rulesetLess [rsAlpha, rsZeta] = [rsAlpha, rsZeta]
   \<and> files (snd (RunAnalysisContainerless (demoCommand ''full'')
        (calmWorld [(''builtin'', clientWith [] :: (unit, string) InternalProviderClient),
                    (''java'', clientWith pomDeps)] [rsZeta, rsAlpha]) Map.empty)) ''output.yaml''
       = Some (RuleSetsYaml [rsAlpha, rsZeta])"
proof -
  let ?w = "calmWorld [(''builtin'', clientWith [] :: (unit, string) InternalProviderClient),
                    (''java'', clientWith pomDeps)] [rsZeta, rsAlpha] :: (unit, string, string) world"
  have ms: "mset [rsZeta, rsAlpha] = mset [rsAlpha, rsZeta]" by simp
  have d: "distinct (map RuleSetName [rsZeta, rsAlpha])"
    by (simp add: rsAlpha_def rsZeta_def)
  have s2: "SliceStable rulesetLess [rsAlpha, rsZeta] = [rsAlpha, rsZeta]"
    by (simp add: SliceStable_def rulesetLess_def rsAlpha_def rsZeta_def)
  have ok: "fst (RunAnalysisContainerless (demoCommand ''full'') ?w Map.empty) = Return None"
    by (simp add: RunAnalysisContainerless_def Let_def calmWorld_def demoCommand_def
          startProvidersContainerless_def clientWith_def noFaults_def FullAnalysisMode_def)
  have rr: "RunRules ?w (ruleSelectors (demoCommand ''full'') ?w) = [rsZeta, rsAlpha]"
    by (simp add: calmWorld_def)
  from rulesets_sorted_before_serialization [where rs = "[rsZeta, rsAlpha]" and rs' = "[rsAlpha, rsZeta]"
             and a = "demoCommand ''full''" and w = ?w and ?files0.0 = Map.empty] ms d s2 ok rr
  show ?thesis by simp
qed

section \<open>Properties of the dependency collector\<close>

lemma providerLoop_flat:
  "providerLoop ps acc = Some depsFlat \<Longrightarrow>
     depsFlat = acc @ concat (map (\<lambda>(name, prov).
        map (\<lambda>(u, ds). \<lparr>Provider = ''java'', FileURI = u, Dependencies = ds\<rparr>)
            (fst (GetDependencies prov))) ps)"
proof (induction ps acc rule: providerLoop.induct)
  case (1 acc)
  then show ?case by simp
next
  case (2 name prov rest acc)
  obtain deps err where g: "GetDependencies prov = (deps, err)" by (cases "GetDependencies prov")
  let ?acc' = "acc @ map (\<lambda>(u, ds). \<lparr>Provider = ''java'', FileURI = u, Dependencies = ds\<rparr>) deps"
  from 2(2) g have ne: "?acc' \<noteq> []" and r: "providerLoop rest ?acc' = Some depsFlat"
    by (auto simp: Let_def split: if_splits)
  from 2(1) [OF g [symmetric] refl ne r] g show ?case by simp
qed

subsection \<open>Attribution and shape of the items (C8)\<close>

text \<open>
  C8, as stated, fails in the attribution. The provider registered as \<open>builtin\<close>
  returns the dependencies of one build file, and the item made from them names the
  provider \<open>java\<close>: the loop does not read the provider's name and writes the
  literal \<open>java\<close> into every item.
\<close>

theorem dependency_item_attribution_counterexample:
  "providerLoop [(''builtin'', clientWith pomDeps :: (unit, string) InternalProviderClient)] []
     = Some [\<lparr>Provider = ''java'', FileURI = ''file:///work/app/pom.xml'',
              Dependencies = [''junit'', ''log4j'']\<rparr>]"
  by (simp add: clientWith_def pomDeps_def Let_def)

text \<open>
  C8, amended. When the loop over the providers ends without the early return, the
  flattened sequence is, provider by provider in the order of the loop and location by
  location in the order of the provider's map, one item per location: it names the
  provider \<open>java\<close> and carries that location and its whole dependency list. The
  sort that follows only reorders the items.
\<close>

theorem dependency_items_flattened:
  "(providerLoop ps [] = Some depsFlat \<longrightarrow>
      depsFlat = concat (map (\<lambda>(name, prov).
                    map (\<lambda>(u, ds). \<lparr>Provider = ''java'', FileURI = u, Dependencies = ds\<rparr>)
                        (fst (GetDependencies prov))) ps))
   \<and> mset (SliceStable depsLess depsFlat) = mset depsFlat"
  using providerLoop_flat [of ps "[]" depsFlat] by (simp add: mset_SliceStable)

theorem dependency_items_flattened_witness:
  "providerLoop [(''java'', clientWith pomDeps :: (unit, string) InternalProviderClient),
                 (''builtin'', clientWith [])] []
     = Some [\<lparr>Provider = ''java'', FileURI = ''file:///work/app/pom.xml'',
              Dependencies = [''junit'', ''log4j'']\<rparr>]"
proof -
  let ?ps = "[(''java'', clientWith pomDeps :: (unit, string) InternalProviderClient),
                 (''builtin'', clientWith [])]"
  obtain r where r: "providerLoop ?ps [] = Some r"
    by (simp add: clientWith_def pomDeps_def Let_def)
  with dependency_items_flattened [of ?ps r]
  have "r = [\<lparr>Provider = ''java'', FileURI = ''file:///work/app/pom.xml'',
              Dependencies = [''junit'', ''log4j'']\<rparr>]"
    by (simp add: clientWith_def pomDeps_def)
  with r show ?thesis by (simp only:)
qed

subsection \<open>A provider without dependencies (C2)\<close>

text \<open>
  C2 at a concrete input. The fallback provider fails to report dependencies and the
  Java provider reports those of one build file. When the loop visits the fallback
  provider first, \<open>depsFlat\<close> is still nil at the end of the first loop body and the
  function returns there: nothing is written. When the loop visits the Java provider
  first, the Java provider's item is written.
\<close>

theorem dependency_collection_depends_on_query_order:
  "DependencyOutputContainerless noFaults
      [(''builtin'', clientNoDeps :: (unit, string) InternalProviderClient),
       (''java'', clientWith pomDeps)]
      ''dependencies.yaml'' (Map.empty :: string \<rightharpoonup> (string, string) document) ''dependencies.yaml''
     = None
   \<and> DependencyOutputContainerless noFaults
      [(''java'', clientWith pomDeps :: (unit, string) InternalProviderClient),
       (''builtin'', clientNoDeps)]
      ''dependencies.yaml'' (Map.empty :: string \<rightharpoonup> (string, string) document) ''dependencies.yaml''
     = Some (DepsYaml [\<lparr>Provider = ''java'', FileURI = ''file:///work/app/pom.xml'',
                        Dependencies = [''junit'', ''log4j'']\<rparr>])"
  by (simp add: DependencyOutputContainerless_def clientNoDeps_def clientWith_def pomDeps_def
        noFaults_def Let_def SliceStable_def)

end
